theory Spec2Isabelle
  imports Main "HOL-Library.Multiset"
begin

section \<open>Python strings\<close>

text \<open>
  A Python \<open>str\<close> is a sequence of code points. A \<^typ>\<open>string\<close> here is a list of
  \<^typ>\<open>char\<close>, one \<^typ>\<open>char\<close> per code point, so the model covers the texts whose
  code points are below 256; \<open>len\<close> is \<^const>\<open>length\<close>. On that range
  \<open>str.isspace\<close>, which \<open>split()\<close>, \<open>strip()\<close> and the pattern \<open>\s\<close> all use, holds of
  the code points 9 to 13, 28 to 32, 133 and 160, and \<open>str.lower\<close> adds 32 to
  the code points 65 to 90 and 192 to 222 except 215.
\<close>

definition isspace :: "char \<Rightarrow> bool" where
  "isspace c =
     (let n = (of_char c :: nat)
      in (9 \<le> n \<and> n \<le> 13) \<or> (28 \<le> n \<and> n \<le> 32) \<or> n = 133 \<or> n = 160)"

definition lower_char :: "char \<Rightarrow> char" where
  "lower_char c =
     (let n = (of_char c :: nat)
      in if (65 \<le> n \<and> n \<le> 90) \<or> (192 \<le> n \<and> n \<le> 222 \<and> n \<noteq> 215)
         then char_of (n + 32) else c)"

definition lower :: "string \<Rightarrow> string" where
  "lower s = map lower_char s"

text \<open>\<open>s.split()\<close>: the maximal runs of characters that are not whitespace.\<close>

fun split_from :: "string \<Rightarrow> string \<Rightarrow> string list" where
  "split_from cur [] = (if cur = [] then [] else [cur])"
| "split_from cur (c # cs) =
     (if isspace c then (if cur = [] then split_from [] cs else cur # split_from [] cs)
      else split_from (cur @ [c]) cs)"

definition split :: "string \<Rightarrow> string list" where
  "split s = split_from [] s"

definition strip :: "string \<Rightarrow> string" where
  "strip s = rev (dropWhile isspace (rev (dropWhile isspace s)))"

text \<open>\<open>sep.join(xs)\<close>\<close>

fun join :: "string \<Rightarrow> string list \<Rightarrow> string" where
  "join sep [] = []"
| "join sep [x] = x"
| "join sep (x # y # ys) = x @ sep @ join sep (y # ys)"

text \<open>\<open>sub in s\<close> on strings: \<open>sub\<close> occurs in \<open>s\<close> as a contiguous piece.\<close>

fun startswith :: "string \<Rightarrow> string \<Rightarrow> bool" where
  "startswith s [] = True"
| "startswith [] (p # ps) = False"
| "startswith (c # cs) (p # ps) = (c = p \<and> startswith cs ps)"

fun contains :: "string \<Rightarrow> string \<Rightarrow> bool" where
  "contains [] sub = (sub = [])"
| "contains (c # cs) sub = (startswith (c # cs) sub \<or> contains cs sub)"

text \<open>The decimal numeral that an f-string prints for a length.\<close>

definition digit_char :: "nat \<Rightarrow> char" where
  "digit_char d = char_of (48 + d)"

fun str_of_nat :: "nat \<Rightarrow> string" where
  "str_of_nat n = (if n < 10 then [digit_char n] else str_of_nat (n div 10) @ [digit_char (n mod 10)])"

declare str_of_nat.simps [simp del]

section \<open>routes/processing.py\<close>

record ProcessingRequest =
  req_text :: string
  req_url :: string
  req_source_type :: string

record ProcessingResponse =
  resp_summary :: string
  resp_tags :: "string list"
  resp_analysis :: string
  resp_status :: string
  resp_error :: string

datatype http_exception = HTTPException nat string

text \<open>
  What the process does besides computing: the request \<open>requests.get\<close> sends and the
  \<open>time.sleep(0.5)\<close> of the analysis.
\<close>

datatype effect = HttpGet string | Sleep

text \<open>
  The two library calls of \<open>extract_text_from_url\<close> whose results come from outside the
  program: \<open>urlparse\<close>, giving the scheme and the network location of a URL (or raising),
  and \<open>requests.get\<close> followed by \<open>raise_for_status\<close>, giving the body of the response
  (or raising). \<open>Inl\<close> carries \<open>str(e)\<close> of the exception raised.
\<close>

record env =
  urlparse :: "string \<Rightarrow> string + string \<times> string"
  requests_get :: "string \<Rightarrow> string + string"

text \<open>
  \<open>re.sub(r'<[^>]+>', ' ', content)\<close>: at a \<open><\<close>, the class \<open>[^>]+\<close> takes every
  character up to the next \<open>>\<close>; there is a match when it took at least one character and a
  \<open>>\<close> follows.
\<close>

function strip_html :: "string \<Rightarrow> string" where
  "strip_html [] = []"
| "strip_html (c # cs) =
     (if c = CHR ''<'' \<and> takeWhile (\<lambda>x. x \<noteq> CHR ''>'') cs \<noteq> []
         \<and> dropWhile (\<lambda>x. x \<noteq> CHR ''>'') cs \<noteq> []
      then CHR '' '' # strip_html (tl (dropWhile (\<lambda>x. x \<noteq> CHR ''>'') cs))
      else c # strip_html cs)"
  by pat_completeness auto
termination
proof (relation "measure length")
  show "wf (measure length)" by simp
next
  fix c :: char and cs :: string
  have "length (tl (dropWhile (\<lambda>x. x \<noteq> CHR ''>'') cs)) \<le> length cs"
    using length_dropWhile_le [of "\<lambda>x. x \<noteq> CHR ''>''" cs] by simp
  then show "(tl (dropWhile (\<lambda>x. x \<noteq> CHR ''>'') cs), c # cs) \<in> measure length"
    by simp
next
  fix c :: char and cs :: string
  show "(cs, c # cs) \<in> measure length" by simp
qed

text \<open>\<open>re.sub(r'\s+', ' ', s)\<close>: every maximal run of whitespace becomes one space.\<close>

fun collapse_ws :: "bool \<Rightarrow> string \<Rightarrow> string" where
  "collapse_ws in_run [] = []"
| "collapse_ws in_run (c # cs) =
     (if isspace c then (if in_run then collapse_ws True cs else CHR '' '' # collapse_ws True cs)
      else c # collapse_ws False cs)"

definition extract_detail :: "string \<Rightarrow> string" where
  "extract_detail msg = ''Failed to extract content from URL: '' @ msg"

definition extract_text_from_url :: "env \<Rightarrow> string \<Rightarrow> effect list \<times> (http_exception + string)" where
  "extract_text_from_url e u =
     (case urlparse e u of
        Inl msg \<Rightarrow> ([], Inl (HTTPException 400 (extract_detail msg)))
      | Inr (scheme, netloc) \<Rightarrow>
          if scheme = [] \<or> netloc = []
          then ([], Inl (HTTPException 400 (extract_detail ''Invalid URL format'')))
          else (case requests_get e u of
                  Inl msg \<Rightarrow> ([HttpGet u], Inl (HTTPException 400 (extract_detail msg)))
                | Inr content \<Rightarrow>
                    let clean_text = strip (collapse_ws False (strip_html content))
                    in ([HttpGet u],
                        Inr (if length clean_text > 5000 then take 5000 clean_text @ ''...''
                             else clean_text))))"

record ai_result =
  res_summary :: string
  res_tags :: "string list"
  res_analysis :: string

definition any_in :: "string list \<Rightarrow> string \<Rightarrow> bool" where
  "any_in kws text_lower = list_ex (\<lambda>word. contains text_lower word) kws"

definition mock_summary :: "string \<Rightarrow> string" where
  "mock_summary t =
     (let words = split t;
          summary_length = min 50 (length words div 3);
          summary = join '' '' (take summary_length words)
      in if length words > summary_length then summary @ ''...'' else summary)"

definition collect_tags :: "string \<Rightarrow> string list" where
  "collect_tags text_lower =
     (if any_in [''ai'', ''artificial intelligence'', ''machine learning'', ''ml''] text_lower
      then [''AI''] else [])
   @ (if any_in [''python'', ''javascript'', ''programming'', ''code'', ''development''] text_lower
      then [''Development''] else [])
   @ (if any_in [''database'', ''sql'', ''data''] text_lower then [''Database''] else [])
   @ (if any_in [''web'', ''http'', ''api'', ''rest''] text_lower then [''Web''] else [])
   @ (if any_in [''research'', ''study'', ''analysis''] text_lower then [''Research''] else [])"

definition mock_tags :: "string \<Rightarrow> string list" where
  "mock_tags t =
     (let tags = collect_tags (lower t)
      in if tags = [] then [''General'', ''Knowledge''] else tags)"

definition topic_clause :: "string \<Rightarrow> string" where
  "topic_clause text_lower =
     (if contains text_lower ''ai'' \<or> contains text_lower ''artificial intelligence''
      then ''artificial intelligence concepts and applications.''
      else if contains text_lower ''development'' \<or> contains text_lower ''programming''
      then ''software development practices and methodologies.''
      else if contains text_lower ''database''
      then ''database design and management principles.''
      else ''general knowledge and information.'')"

definition mock_analysis :: "string \<Rightarrow> string" where
  "mock_analysis t =
     ''This content appears to be about '' @ lower (join '', '' (mock_tags t)) @ ''. ''
     @ ''The text contains approximately '' @ str_of_nat (length (split t)) @ '' words and covers ''
     @ topic_clause (lower t)"

definition mock_ai_processing :: "string \<Rightarrow> ai_result" where
  "mock_ai_processing t =
     \<lparr>res_summary = mock_summary t, res_tags = mock_tags t, res_analysis = mock_analysis t\<rparr>"

text \<open>
  The handler either returns a response or lets an \<open>HTTPException\<close> leave it
  (\<open>except HTTPException: raise\<close>). Its second handler, \<open>except Exception\<close>, returns the
  response with status \<open>error\<close>; nothing in the body raises anything but an
  \<open>HTTPException\<close>, since \<open>extract_text_from_url\<close> turns every exception into one, so
  that handler has no branch here.
\<close>

datatype outcome = Raised http_exception | Returned ProcessingResponse

definition analyse_content :: "effect list \<Rightarrow> string \<Rightarrow> effect list \<times> outcome" where
  "analyse_content done text_content =
     (if length (strip text_content) < 10
      then (done, Raised (HTTPException 400 ''Content too short for processing''))
      else let ai_result = mock_ai_processing text_content
           in (done @ [Sleep],
               Returned \<lparr>resp_summary = res_summary ai_result, resp_tags = res_tags ai_result,
                         resp_analysis = res_analysis ai_result, resp_status = ''success'',
                         resp_error = ''''\<rparr>))"

definition process_content :: "env \<Rightarrow> ProcessingRequest \<Rightarrow> effect list \<times> outcome" where
  "process_content e request =
     (if req_source_type request = ''url'' \<and> req_url request \<noteq> []
      then (case extract_text_from_url e (req_url request) of
              (done, Inl ex) \<Rightarrow> (done, Raised ex)
            | (done, Inr text_content) \<Rightarrow> analyse_content done text_content)
      else if req_source_type request = ''text'' \<and> req_text request \<noteq> []
      then analyse_content [] (req_text request)
      else ([], Raised (HTTPException 400 ''No valid content provided'')))"

definition no_network :: env where
  "no_network = \<lparr>urlparse = (\<lambda>u. Inr ([], [])), requests_get = (\<lambda>u. Inl ''unreachable'')\<rparr>"

text \<open>A page whose markup leaves the four characters \<open>tiny\<close>.\<close>

definition tiny_page :: env where
  "tiny_page = \<lparr>urlparse = (\<lambda>u. Inr (''http'', ''example.org'')),
                requests_get = (\<lambda>u. Inr ''<html><p> tiny </p></html>'')\<rparr>"

subsection \<open>The tag and narrative rules as tables\<close>

text \<open>
  The rules of the analysis engine as the specification words them: an ordered table of
  buckets, each with its trigger keywords, and a clause chosen by priority among three
  tests. They are compared with \<^const>\<open>mock_tags\<close> and \<^const>\<open>topic_clause\<close> below.
\<close>

definition buckets :: "(string \<times> string list) list" where
  "buckets =
     [(''AI'', [''ai'', ''artificial intelligence'', ''machine learning'', ''ml'']),
      (''Development'', [''python'', ''javascript'', ''programming'', ''code'', ''development'']),
      (''Database'', [''database'', ''sql'', ''data'']),
      (''Web'', [''web'', ''http'', ''api'', ''rest'']),
      (''Research'', [''research'', ''study'', ''analysis''])]"

definition bucket_tags :: "string \<Rightarrow> string list" where
  "bucket_tags t =
     (let matched = map fst (filter (\<lambda>(tag, kws). \<exists>kw \<in> set kws. contains (lower t) kw) buckets)
      in if matched = [] then [''General'', ''Knowledge''] else matched)"

definition clause_by_priority :: "bool \<Rightarrow> bool \<Rightarrow> bool \<Rightarrow> string" where
  "clause_by_priority ai dev db =
     (if ai then ''artificial intelligence concepts and applications.''
      else if dev then ''software development practices and methodologies.''
      else if db then ''database design and management principles.''
      else ''general knowledge and information.'')"

section \<open>database.py\<close>

text \<open>
  The table \<open>knowledge_items\<close> of \<open>create_basic_schema\<close>. A row carries the columns of
  the schema; the dictionary a read returns has the same keys, with the \<open>tags\<close> column
  decoded, so both are one record with the type of \<open>tags\<close> left open. Timestamps are
  the seconds that \<open>CURRENT_TIMESTAMP\<close> counts.

  The \<open>tags\<close> column holds \<open>NULL\<close>, or the text \<open>json.dumps\<close> made of a list of strings,
  kept here as that list (\<open>json.loads\<close> gives the list back, and the text of a list is
  never empty), or a text that an update wrote as it was given.
\<close>

record 't knowledge_item =
  item_id :: int
  title :: string
  content :: string
  source_type :: string
  source_url :: "string option"
  tags :: 't
  summary :: "string option"
  ai_analysis :: "string option"
  created_at :: nat
  updated_at :: nat
  is_active :: bool

datatype tags_col = TagsNull | TagsJson "string list" | TagsText string

text \<open>The Python values of the API's types: \<open>None\<close>, a \<open>str\<close>, a list of \<open>str\<close>.\<close>

datatype pyval = PNone | PStr string | PList "string list"

type_synonym row = "tags_col knowledge_item"
type_synonym item = "pyval knowledge_item"

text \<open>
  The rows in the order of their rowids, and the counter that \<open>AUTOINCREMENT\<close>
  keeps in \<open>sqlite_sequence\<close>.
\<close>

record store =
  rows :: "row list"
  seq :: int

datatype db_error = IntegrityError | InterfaceError | JSONDecodeError

definition next_rowid :: "store \<Rightarrow> int" where
  "next_rowid s = fold max (map item_id (rows s)) (seq s) + 1"

definition create_knowledge_item ::
  "store \<Rightarrow> nat \<Rightarrow> string \<Rightarrow> string \<Rightarrow> string \<Rightarrow> string option \<Rightarrow> string list option
     \<Rightarrow> string option \<Rightarrow> string option \<Rightarrow> db_error + int \<times> store" where
  "create_knowledge_item s now ttl cnt stype surl tgs summ analysis =
     (let tags_json = (case tgs of None \<Rightarrow> TagsNull
                       | Some l \<Rightarrow> if l \<noteq> [] then TagsJson l else TagsNull)
      in if stype \<notin> set [''text'', ''url'', ''file''] then Inl IntegrityError
         else let new_id = next_rowid s
              in Inr (new_id,
                      \<lparr>rows = rows s @
                         [\<lparr>item_id = new_id, title = ttl, content = cnt, source_type = stype,
                           source_url = surl, tags = tags_json, summary = summ,
                           ai_analysis = analysis, created_at = now, updated_at = now,
                           is_active = True\<rparr>],
                       seq = new_id\<rparr>))"

text \<open>
  \<open>item = dict(row)\<close> and \<open>if item['tags']: item['tags'] = json.loads(item['tags'])\<close>.
  The parameter \<open>json_loads\<close> is \<open>json.loads\<close> on a text that an update stored as it
  was given: \<open>None\<close> where it raises.
\<close>

definition as_item :: "row \<Rightarrow> pyval \<Rightarrow> item" where
  "as_item r v =
     \<lparr>item_id = item_id r, title = title r, content = content r, source_type = source_type r,
      source_url = source_url r, tags = v, summary = summary r, ai_analysis = ai_analysis r,
      created_at = created_at r, updated_at = updated_at r, is_active = is_active r\<rparr>"

definition decode_row :: "(string \<Rightarrow> pyval option) \<Rightarrow> row \<Rightarrow> db_error + item" where
  "decode_row json_loads r =
     (case tags r of
        TagsNull \<Rightarrow> Inr (as_item r PNone)
      | TagsJson l \<Rightarrow> Inr (as_item r (PList l))
      | TagsText t \<Rightarrow>
          if t = [] then Inr (as_item r (PStr []))
          else (case json_loads t of
                  None \<Rightarrow> Inl JSONDecodeError
                | Some v \<Rightarrow> Inr (as_item r v)))"

fun decode_rows :: "(string \<Rightarrow> pyval option) \<Rightarrow> row list \<Rightarrow> db_error + item list" where
  "decode_rows json_loads [] = Inr []"
| "decode_rows json_loads (r # rs) =
     (case decode_row json_loads r of
        Inl e \<Rightarrow> Inl e
      | Inr i \<Rightarrow> (case decode_rows json_loads rs of Inl e \<Rightarrow> Inl e | Inr is \<Rightarrow> Inr (i # is)))"

definition get_knowledge_item :: "(string \<Rightarrow> pyval option) \<Rightarrow> store \<Rightarrow> int \<Rightarrow> db_error + item option" where
  "get_knowledge_item json_loads s i =
     (case find (\<lambda>r. item_id r = i \<and> is_active r) (rows s) of
        None \<Rightarrow> Inr None
      | Some r \<Rightarrow> (case decode_row json_loads r of Inl e \<Rightarrow> Inl e | Inr it \<Rightarrow> Inr (Some it)))"

text \<open>
  \<open>ORDER BY created_at DESC\<close>: the rows sorted by falling \<open>created_at\<close>; rows of equal
  \<open>created_at\<close> stay in the order of their rowids, so that the same rows always come in
  the same order.
\<close>

definition order_by_created_at_desc :: "row list \<Rightarrow> row list" where
  "order_by_created_at_desc rs = sort_key (\<lambda>r. - int (created_at r)) rs"

text \<open>\<open>LIMIT ? OFFSET ?\<close> of SQLite: a negative limit is no limit, a negative offset is 0.\<close>

definition limit_offset :: "int \<Rightarrow> int \<Rightarrow> 'a list \<Rightarrow> 'a list" where
  "limit_offset lim off xs =
     (let ys = drop (nat off) xs in if lim < 0 then ys else take (nat lim) ys)"

definition select_active :: "store \<Rightarrow> int \<Rightarrow> int \<Rightarrow> row list" where
  "select_active s lim off =
     limit_offset lim off (order_by_created_at_desc (filter is_active (rows s)))"

definition get_all_knowledge_items ::
  "(string \<Rightarrow> pyval option) \<Rightarrow> store \<Rightarrow> int \<Rightarrow> int \<Rightarrow> db_error + item list" where
  "get_all_knowledge_items json_loads s lim off = decode_rows json_loads (select_active s lim off)"

text \<open>
  \<open>update_knowledge_item(item_id, **kwargs)\<close>. The keyword arguments are an association
  list in the order of the dictionary. A value bound to a statement is \<open>NULL\<close>, a text,
  the text \<open>json.dumps\<close> made of a list (which the function makes of a list under the
  key \<open>tags\<close> only), or a list itself, which \<open>sqlite3\<close> refuses to bind.
\<close>

datatype sqlval = SqlNull | SqlText string | SqlJson "string list" | Unbindable

definition bind_value :: "string \<Rightarrow> pyval \<Rightarrow> sqlval" where
  "bind_value key v =
     (case v of
        PNone \<Rightarrow> SqlNull
      | PStr t \<Rightarrow> SqlText t
      | PList l \<Rightarrow> if key = ''tags'' then SqlJson l else Unbindable)"

definition updatable :: "string list" where
  "updatable = [''title'', ''content'', ''source_url'', ''tags'', ''summary'', ''ai_analysis'']"

definition set_clauses :: "(string \<times> pyval) list \<Rightarrow> (string \<times> sqlval) list" where
  "set_clauses kwargs =
     map (\<lambda>(key, v). (key, bind_value key v)) (filter (\<lambda>(key, v). key \<in> set updatable) kwargs)"

definition text_of :: "sqlval \<Rightarrow> string option" where
  "text_of v = (case v of SqlText t \<Rightarrow> Some t | _ \<Rightarrow> None)"

text \<open>
  One assignment \<open>key = ?\<close> of the \<open>SET\<close> list on one row; \<open>title\<close> and \<open>content\<close>
  are \<open>NOT NULL\<close>.
\<close>

definition assign :: "row \<Rightarrow> string \<times> sqlval \<Rightarrow> db_error + row" where
  "assign r kv =
     (case kv of (key, v) \<Rightarrow>
        if key = ''title'' then
          (case v of SqlText t \<Rightarrow> Inr (r\<lparr>title := t\<rparr>) | _ \<Rightarrow> Inl IntegrityError)
        else if key = ''content'' then
          (case v of SqlText t \<Rightarrow> Inr (r\<lparr>content := t\<rparr>) | _ \<Rightarrow> Inl IntegrityError)
        else if key = ''source_url'' then Inr (r\<lparr>source_url := text_of v\<rparr>)
        else if key = ''tags'' then
          Inr (r\<lparr>tags := (case v of SqlText t \<Rightarrow> TagsText t | SqlJson l \<Rightarrow> TagsJson l
                            | _ \<Rightarrow> TagsNull)\<rparr>)
        else if key = ''summary'' then Inr (r\<lparr>summary := text_of v\<rparr>)
        else if key = ''ai_analysis'' then Inr (r\<lparr>ai_analysis := text_of v\<rparr>)
        else Inr r)"

fun assign_all :: "row \<Rightarrow> (string \<times> sqlval) list \<Rightarrow> db_error + row" where
  "assign_all r [] = Inr r"
| "assign_all r (kv # kvs) =
     (case assign r kv of Inl e \<Rightarrow> Inl e | Inr r' \<Rightarrow> assign_all r' kvs)"

text \<open>
  \<open>UPDATE knowledge_items SET ... WHERE id = ? AND is_active = 1\<close> over the rows; an
  error leaves the table as it was.
\<close>

fun update_rows :: "(row \<Rightarrow> db_error + row) \<Rightarrow> int \<Rightarrow> row list \<Rightarrow> db_error + row list" where
  "update_rows f i [] = Inr []"
| "update_rows f i (r # rs) =
     (case (if item_id r = i \<and> is_active r then f r else Inr r) of
        Inl e \<Rightarrow> Inl e
      | Inr r' \<Rightarrow> (case update_rows f i rs of Inl e \<Rightarrow> Inl e | Inr rs' \<Rightarrow> Inr (r' # rs')))"

definition rowcount :: "int \<Rightarrow> row list \<Rightarrow> nat" where
  "rowcount i rs = length (filter (\<lambda>r. item_id r = i \<and> is_active r) rs)"

definition update_knowledge_item ::
  "store \<Rightarrow> nat \<Rightarrow> int \<Rightarrow> (string \<times> pyval) list \<Rightarrow> db_error + bool \<times> store" where
  "update_knowledge_item s now i kwargs =
     (if kwargs = [] then Inr (False, s)
      else let clauses = set_clauses kwargs
           in if clauses = [] then Inr (False, s)
              else if Unbindable \<in> set (map snd clauses) then Inl InterfaceError
              else (case update_rows
                           (\<lambda>r. case assign_all r clauses of
                                   Inl e \<Rightarrow> Inl e
                                 | Inr r' \<Rightarrow> Inr (r'\<lparr>updated_at := now\<rparr>))
                           i (rows s) of
                      Inl e \<Rightarrow> Inl e
                    | Inr rs' \<Rightarrow> Inr (rowcount i (rows s) > 0, s\<lparr>rows := rs'\<rparr>)))"

definition delete_knowledge_item :: "store \<Rightarrow> nat \<Rightarrow> int \<Rightarrow> bool \<times> store" where
  "delete_knowledge_item s now i =
     (rowcount i (rows s) > 0,
      s\<lparr>rows := map (\<lambda>r. if item_id r = i \<and> is_active r
                           then r\<lparr>is_active := False, updated_at := now\<rparr> else r) (rows s)\<rparr>)"

text \<open>
  \<open>LIKE\<close> of SQLite without an escape character: \<open>%\<close> stands for any run of
  characters, \<open>_\<close> for one character, and the letters A to Z match in either case.
  The query is put between two \<open>%\<close> as it is, so its own \<open>%\<close> and \<open>_\<close> are wildcards too.
\<close>

definition ascii_lower :: "char \<Rightarrow> char" where
  "ascii_lower c =
     (let n = (of_char c :: nat) in if 65 \<le> n \<and> n \<le> 90 then char_of (n + 32) else c)"

fun like :: "string \<Rightarrow> string \<Rightarrow> bool" where
  "like [] [] = True"
| "like [] (c # cs) = False"
| "like (p # ps) [] = (p = CHR ''%'' \<and> like ps [])"
| "like (p # ps) (c # cs) =
     (if p = CHR ''%'' then like ps (c # cs) \<or> like (p # ps) cs
      else (p = CHR ''_'' \<or> ascii_lower p = ascii_lower c) \<and> like ps cs)"

definition matches :: "string \<Rightarrow> row \<Rightarrow> bool" where
  "matches search_term r =
     (like search_term (title r) \<or> like search_term (content r)
      \<or> (case summary r of None \<Rightarrow> False | Some t \<Rightarrow> like search_term t))"

definition search_knowledge_items ::
  "(string \<Rightarrow> pyval option) \<Rightarrow> store \<Rightarrow> string \<Rightarrow> int \<Rightarrow> db_error + item list" where
  "search_knowledge_items json_loads s query lim =
     (let search_term = ''%'' @ query @ ''%''
      in decode_rows json_loads
           (limit_offset lim 0
              (order_by_created_at_desc
                 (filter (\<lambda>r. is_active r \<and> matches search_term r) (rows s)))))"

section \<open>routes/knowledge.py: the statistics\<close>

record stats =
  total_items :: nat
  source_types :: "(string \<times> nat) list"
  popular_tags :: "(string \<times> nat) list"

text \<open>\<open>d[k] = d.get(k, 0) + 1\<close> on a dictionary that keeps the order of insertion.\<close>

fun bump :: "string \<Rightarrow> (string \<times> nat) list \<Rightarrow> (string \<times> nat) list" where
  "bump k [] = [(k, 1)]"
| "bump k ((k', n) # kvs) = (if k = k' then (k', n + 1) # kvs else (k', n) # bump k kvs)"

text \<open>
  \<open>if item.get('tags'): for tag in item['tags']\<close>: nothing for \<open>None\<close> and for an empty
  value, the elements of a list, the characters of a string.
\<close>

definition tags_iterated :: "pyval \<Rightarrow> string list" where
  "tags_iterated v = (case v of PNone \<Rightarrow> [] | PStr t \<Rightarrow> map (\<lambda>c. [c]) t | PList l \<Rightarrow> l)"

definition count_items :: "item list \<Rightarrow> (string \<times> nat) list \<times> (string \<times> nat) list" where
  "count_items items =
     fold (\<lambda>it (st, tc). (bump (source_type it) st, fold bump (tags_iterated (tags it)) tc))
          items ([], [])"

text \<open>
  \<open>Inl\<close> is the exception that the handler turns into an \<open>HTTPException\<close> with status
  500. \<open>sorted(..., reverse=True)\<close> is stable.
\<close>

definition get_knowledge_stats :: "(string \<Rightarrow> pyval option) \<Rightarrow> store \<Rightarrow> db_error + stats" where
  "get_knowledge_stats json_loads s =
     (case get_all_knowledge_items json_loads s 10000 0 of
        Inl e \<Rightarrow> Inl e
      | Inr items \<Rightarrow>
          (case count_items items of (st, tc) \<Rightarrow>
             Inr \<lparr>total_items = length items, source_types = st,
                  popular_tags = take 10 (sort_key (\<lambda>kv. - int (snd kv)) tc)\<rparr>))"

section \<open>Relations and data for the statements about the store\<close>

text \<open>
  Two relations between a row before and after a statement: the columns for which no
  update has an assignment are the same, and so is every column whose key is not among
  the given ones.
\<close>

definition same_fixed :: "row \<Rightarrow> row \<Rightarrow> bool" where
  "same_fixed r r' \<longleftrightarrow>
     item_id r' = item_id r \<and> source_type r' = source_type r
     \<and> created_at r' = created_at r \<and> is_active r' = is_active r"

definition kept :: "string set \<Rightarrow> row \<Rightarrow> row \<Rightarrow> bool" where
  "kept keys r r' \<longleftrightarrow>
     (''title'' \<notin> keys \<longrightarrow> title r' = title r)
     \<and> (''content'' \<notin> keys \<longrightarrow> content r' = content r)
     \<and> (''source_url'' \<notin> keys \<longrightarrow> source_url r' = source_url r)
     \<and> (''tags'' \<notin> keys \<longrightarrow> tags r' = tags r)
     \<and> (''summary'' \<notin> keys \<longrightarrow> summary r' = summary r)
     \<and> (''ai_analysis'' \<notin> keys \<longrightarrow> ai_analysis r' = ai_analysis r)"

text \<open>What the \<open>UPDATE\<close> of a soft delete does to one row.\<close>

definition deactivate :: "nat \<Rightarrow> int \<Rightarrow> row \<Rightarrow> row" where
  "deactivate now i r =
     (if item_id r = i \<and> is_active r then r\<lparr>is_active := False, updated_at := now\<rparr> else r)"

text \<open>The table as it would be had the rows with the id \<open>i\<close> never been stored.\<close>

definition without_item :: "int \<Rightarrow> store \<Rightarrow> store" where
  "without_item i s = s\<lparr>rows := filter (\<lambda>r. item_id r \<noteq> i) (rows s)\<rparr>"

text \<open>
  A \<open>json.loads\<close> that raises on every text, an empty table, the table with one
  note created without tags in second 7, and a table of six rows:
  five active ones, two pairs of which were created in the same second, and one deleted.
\<close>

definition no_json :: "string \<Rightarrow> pyval option" where
  "no_json t = None"

definition empty_store :: store where
  "empty_store = \<lparr>rows = [], seq = 0\<rparr>"

definition untagged_note_store :: store where
  "untagged_note_store =
     \<lparr>rows = [\<lparr>item_id = 1, title = ''Note'', content = ''Content of the note'',
               source_type = ''text'', source_url = None, tags = TagsNull, summary = None,
               ai_analysis = None, created_at = 7, updated_at = 7, is_active = True\<rparr>],
      seq = 1\<rparr>"

definition stored_note :: "int \<Rightarrow> string \<Rightarrow> string \<Rightarrow> tags_col \<Rightarrow> nat \<Rightarrow> bool \<Rightarrow> row" where
  "stored_note i ttl stype tgs secs active =
     \<lparr>item_id = i, title = ttl, content = ''Some content of the note'', source_type = stype,
      source_url = (if stype = ''url'' then Some ''http://example.org/'' else None),
      tags = tgs, summary = Some ''A summary'', ai_analysis = None,
      created_at = secs, updated_at = secs, is_active = active\<rparr>"

definition six_notes :: store where
  "six_notes =
     \<lparr>rows = [stored_note 1 ''alpha'' ''text'' TagsNull 10 True,
              stored_note 2 ''beta'' ''url'' (TagsJson [''x'', ''y'']) 10 True,
              stored_note 3 ''gamma'' ''text'' TagsNull 12 True,
              stored_note 4 ''delta'' ''file'' (TagsJson [''x'']) 11 True,
              stored_note 5 ''epsilon'' ''text'' (TagsJson []) 12 True,
              stored_note 6 ''zeta'' ''text'' (TagsJson [''z'']) 13 False],
      seq = 6\<rparr>"

section \<open>Properties of the processing pipeline\<close>

lemma strip_Nil: "strip [] = []"
  by (simp add: strip_def)

lemma strip_hi: "strip ''hi'' = ''hi''"
  by (simp add: strip_def isspace_def)

lemma analyse_content_short:
  "length (strip t) < 10 \<Longrightarrow>
   analyse_content d t = (d, Raised (HTTPException 400 ''Content too short for processing''))"
  by (simp add: analyse_content_def)

lemma analyse_content_returned:
  "snd (analyse_content d t) = Returned resp \<Longrightarrow> resp_status resp = ''success''"
  by (auto simp: analyse_content_def Let_def split: if_splits)

lemma process_content_returned:
  "snd (process_content e r) = Returned resp \<Longrightarrow> resp_status resp = ''success''"
  by (auto simp: process_content_def split: if_splits prod.splits sum.splits
           dest: analyse_content_returned)

text \<open>
  C1, as the claim states it: a request that fails the content validations gets a result
  envelope with status \<open>error\<close> and nothing is raised. The code does otherwise: a
  request for source type \<open>text\<close> with an empty text, and one with the text \<open>hi\<close>, both
  end in an \<open>HTTPException\<close> that leaves the handler.
\<close>

theorem validation_failure_is_raised:
  "snd (process_content no_network \<lparr>req_text = [], req_url = [], req_source_type = ''text''\<rparr>)
     = Raised (HTTPException 400 ''No valid content provided'')
   \<and> snd (process_content no_network \<lparr>req_text = ''hi'', req_url = [], req_source_type = ''text''\<rparr>)
     = Raised (HTTPException 400 ''Content too short for processing'')"
  by (simp add: process_content_def analyse_content_short strip_hi)

text \<open>
  C1, amended: for every request that fails the content validations (source type \<open>text\<close>
  and the text, trimmed, shorter than 10 characters, which covers the empty text; source
  type \<open>url\<close> and the URL empty or the extracted text, trimmed, shorter than 10
  characters), the process raises an \<open>HTTPException\<close> with status code 400 whose detail
  is \<open>No valid content provided\<close> or \<open>Content too short for processing\<close>; it returns no
  envelope, and every envelope the process returns has status \<open>success\<close>.
\<close>

theorem validation_failure_raises_400:
  assumes "(req_source_type r = ''text'' \<and> length (strip (req_text r)) < 10)
           \<or> (req_source_type r = ''url''
               \<and> (req_url r = []
                   \<or> (\<exists>t. snd (extract_text_from_url e (req_url r)) = Inr t \<and> length (strip t) < 10)))"
  shows "(snd (process_content e r) = Raised (HTTPException 400 ''No valid content provided'')
          \<or> snd (process_content e r) = Raised (HTTPException 400 ''Content too short for processing''))
         \<and> (\<forall>resp. snd (process_content e r) \<noteq> Returned resp)
         \<and> (\<forall>e' r' resp. snd (process_content e' r') = Returned resp \<longrightarrow> resp_status resp = ''success'')"
proof -
  have raised: "snd (process_content e r) = Raised (HTTPException 400 ''No valid content provided'')
          \<or> snd (process_content e r) = Raised (HTTPException 400 ''Content too short for processing'')"
    using assms
  proof (elim disjE conjE exE)
    assume "req_source_type r = ''text''" and "length (strip (req_text r)) < 10"
    then show ?thesis
      by (cases "req_text r = []") (simp_all add: process_content_def analyse_content_short)
  next
    assume "req_source_type r = ''url''" and "req_url r = []"
    then show ?thesis by (simp add: process_content_def)
  next
    fix t
    assume "req_source_type r = ''url''"
      and t: "snd (extract_text_from_url e (req_url r)) = Inr t" and "length (strip t) < 10"
    then show ?thesis
      by (cases "req_url r = []"; cases "extract_text_from_url e (req_url r)")
         (simp_all add: process_content_def analyse_content_short)
  qed
  then have "\<forall>resp. snd (process_content e r) \<noteq> Returned resp" by auto
  with raised show ?thesis using process_content_returned by blast
qed

theorem validation_failure_raises_400_witness:
  "snd (process_content no_network \<lparr>req_text = ''hi'', req_url = [], req_source_type = ''text''\<rparr>)
     \<noteq> Returned \<lparr>resp_summary = [], resp_tags = [], resp_analysis = [], resp_status = ''error'',
                 resp_error = ''Content too short for processing''\<rparr>"
  using validation_failure_raises_400
    [of "\<lparr>req_text = ''hi'', req_url = [], req_source_type = ''text''\<rparr>" no_network]
  by (simp add: strip_hi)

text \<open>
  C2: the payload of the source type is checked first, and an absent or empty one fails
  with \<open>No valid content provided\<close>, whatever the other fields hold; otherwise the text
  (the given one, or the one extracted from the URL), trimmed, is checked next, and one
  shorter than 10 characters fails with \<open>Content too short for processing\<close>. The
  request with source type \<open>text\<close> and the text \<open>hi\<close> fails with the latter.
\<close>

theorem validation_order:
  "(req_source_type r = ''text'' \<and> req_text r = []
      \<longrightarrow> process_content e r = ([], Raised (HTTPException 400 ''No valid content provided'')))
   \<and> (req_source_type r = ''url'' \<and> req_url r = []
      \<longrightarrow> process_content e r = ([], Raised (HTTPException 400 ''No valid content provided'')))
   \<and> (req_source_type r = ''text'' \<and> req_text r \<noteq> [] \<and> length (strip (req_text r)) < 10
      \<longrightarrow> process_content e r = ([], Raised (HTTPException 400 ''Content too short for processing'')))
   \<and> (req_source_type r = ''url'' \<and> req_url r \<noteq> []
        \<and> extract_text_from_url e (req_url r) = (d, Inr t) \<and> length (strip t) < 10
      \<longrightarrow> process_content e r = (d, Raised (HTTPException 400 ''Content too short for processing'')))
   \<and> process_content e \<lparr>req_text = ''hi'', req_url = u, req_source_type = ''text''\<rparr>
       = ([], Raised (HTTPException 400 ''Content too short for processing''))"
proof (intro conjI impI)
  assume "req_source_type r = ''text'' \<and> req_text r = []"
  then show "process_content e r = ([], Raised (HTTPException 400 ''No valid content provided''))"
    by (simp add: process_content_def)
next
  assume "req_source_type r = ''url'' \<and> req_url r = []"
  then show "process_content e r = ([], Raised (HTTPException 400 ''No valid content provided''))"
    by (simp add: process_content_def)
next
  assume "req_source_type r = ''text'' \<and> req_text r \<noteq> [] \<and> length (strip (req_text r)) < 10"
  then show "process_content e r = ([], Raised (HTTPException 400 ''Content too short for processing''))"
    by (simp add: process_content_def analyse_content_short)
next
  assume "req_source_type r = ''url'' \<and> req_url r \<noteq> []
        \<and> extract_text_from_url e (req_url r) = (d, Inr t) \<and> length (strip t) < 10"
  then show "process_content e r = (d, Raised (HTTPException 400 ''Content too short for processing''))"
    by (simp add: process_content_def analyse_content_short)
next
  show "process_content e \<lparr>req_text = ''hi'', req_url = u, req_source_type = ''text''\<rparr>
       = ([], Raised (HTTPException 400 ''Content too short for processing''))"
    by (simp add: process_content_def analyse_content_short strip_hi)
qed

text \<open>
  The hypotheses of C2 at concrete requests: an empty text beside a filled URL, an empty
  URL beside a filled text, a text of nine characters between spaces, and a page whose
  markup leaves the four characters \<open>tiny\<close>.
\<close>

lemma tiny_page_extract:
  "extract_text_from_url tiny_page ''http://example.org/'' = ([HttpGet ''http://example.org/''], Inr ''tiny'')"
  by code_simp

lemma strip_tiny: "length (strip ''tiny'') < 10"
  by (simp add: strip_def isspace_def)

lemma strip_nine: "length (strip ''  123456789  '') < 10"
  by (simp add: strip_def isspace_def)

theorem validation_order_witness:
  "process_content no_network
      \<lparr>req_text = [], req_url = ''http://example.org/'', req_source_type = ''text''\<rparr>
     = ([], Raised (HTTPException 400 ''No valid content provided''))
   \<and> process_content no_network
      \<lparr>req_text = ''A text that is long enough'', req_url = [], req_source_type = ''url''\<rparr>
     = ([], Raised (HTTPException 400 ''No valid content provided''))
   \<and> process_content no_network
      \<lparr>req_text = ''  123456789  '', req_url = [], req_source_type = ''text''\<rparr>
     = ([], Raised (HTTPException 400 ''Content too short for processing''))
   \<and> process_content tiny_page
      \<lparr>req_text = [], req_url = ''http://example.org/'', req_source_type = ''url''\<rparr>
     = ([HttpGet ''http://example.org/''], Raised (HTTPException 400 ''Content too short for processing''))"
  using validation_order
      [of "\<lparr>req_text = [], req_url = ''http://example.org/'', req_source_type = ''text''\<rparr>"
          no_network]
    validation_order
      [of "\<lparr>req_text = ''A text that is long enough'', req_url = [], req_source_type = ''url''\<rparr>"
          no_network]
    validation_order
      [of "\<lparr>req_text = ''  123456789  '', req_url = [], req_source_type = ''text''\<rparr>" no_network]
    validation_order
      [of "\<lparr>req_text = [], req_url = ''http://example.org/'', req_source_type = ''url''\<rparr>"
          tiny_page "[HttpGet ''http://example.org/'']" "''tiny''"]
  by (simp add: tiny_page_extract strip_tiny strip_nine)

text \<open>
  C10: a request whose source type is neither \<open>text\<close> nor \<open>url\<close> (\<open>file\<close>, which the
  table of items accepts, among them) fails with \<open>No valid content provided\<close>, whatever
  its text and URL are; nothing is fetched and the analysis does not run, so the
  process has no effect at all.
\<close>

theorem other_source_type_no_content:
  "req_source_type r \<noteq> ''text'' \<Longrightarrow> req_source_type r \<noteq> ''url'' \<Longrightarrow>
   process_content e r = ([], Raised (HTTPException 400 ''No valid content provided''))"
  by (simp add: process_content_def)

theorem other_source_type_no_content_witness:
  "process_content tiny_page
      \<lparr>req_text = ''A long enough text about databases'', req_url = ''http://example.org/'',
       req_source_type = ''file''\<rparr>
     = ([], Raised (HTTPException 400 ''No valid content provided''))"
  using other_source_type_no_content
      [of "\<lparr>req_text = ''A long enough text about databases'', req_url = ''http://example.org/'',
            req_source_type = ''file''\<rparr>" tiny_page]
  by simp

section \<open>Properties of the analysis engine\<close>

lemma collect_tags_filter:
  "collect_tags s = map fst (filter (\<lambda>(tag, kws). \<exists>kw \<in> set kws. contains s kw) buckets)"
  by (simp add: collect_tags_def buckets_def any_in_def)

lemma distinct_bucket_names: "distinct (map fst buckets)"
  by (simp add: buckets_def)

text \<open>
  C3: the tags are those of the table of buckets, in the order AI, Development, Database,
  Web, Research: the tag of every bucket one of whose keywords occurs in the lowercased
  text, each once; when no bucket matches, the tags are \<open>General\<close>, \<open>Knowledge\<close> and
  nothing else. The text \<open>This project uses Python and a SQL database for web APIs\<close> gets
  \<open>Development\<close>, \<open>Database\<close>, \<open>Web\<close>.
\<close>

theorem tags_by_buckets:
  "mock_tags t = bucket_tags t
   \<and> distinct (mock_tags t)
   \<and> mock_tags ''This project uses Python and a SQL database for web APIs''
       = [''Development'', ''Database'', ''Web'']"
proof (intro conjI)
  show "mock_tags t = bucket_tags t"
    by (simp add: mock_tags_def bucket_tags_def collect_tags_filter)
  have "distinct (map fst (filter (\<lambda>(tag, kws). \<exists>kw \<in> set kws. contains (lower t) kw) buckets))"
    using distinct_bucket_names by (rule distinct_map_filter)
  then show "distinct (mock_tags t)"
    by (simp add: mock_tags_def collect_tags_filter Let_def)
  show "mock_tags ''This project uses Python and a SQL database for web APIs''
       = [''Development'', ''Database'', ''Web'']"
    by code_simp
qed

lemma bucket_tags_gardening: "bucket_tags ''Notes on gardening'' = [''General'', ''Knowledge'']"
  by code_simp

theorem tags_by_buckets_witness:
  "mock_tags ''Notes on gardening'' = [''General'', ''Knowledge'']"
  using tags_by_buckets [of "''Notes on gardening''"] bucket_tags_gardening by (simp only:)

lemma split_from_word:
  "w \<in> set (split_from cur s) \<Longrightarrow> list_all (\<lambda>c. \<not> isspace c) cur \<Longrightarrow>
   w \<noteq> [] \<and> list_all (\<lambda>c. \<not> isspace c) w"
proof (induction s arbitrary: cur)
  case Nil
  then show ?case by (cases "cur = []") simp_all
next
  case (Cons a s)
  show ?case
  proof (cases "isspace a")
    case True
    with Cons.prems have "w = cur \<and> cur \<noteq> [] \<or> w \<in> set (split_from [] s)"
      by (cases "cur = []") simp_all
    then show ?thesis
    proof
      assume "w = cur \<and> cur \<noteq> []"
      with Cons.prems(2) show ?thesis by simp
    next
      assume "w \<in> set (split_from [] s)"
      then show ?thesis by (rule Cons.IH) simp
    qed
  next
    case False
    with Cons.prems(1) have "w \<in> set (split_from (cur @ [a]) s)" by simp
    then show ?thesis
    proof (rule Cons.IH)
      show "list_all (\<lambda>c. \<not> isspace c) (cur @ [a])" using Cons.prems(2) False by simp
    qed
  qed
qed

lemma ellipsis_iff_dropped:
  "(if length ws > k then s @ e else s) = s @ (if drop k ws \<noteq> [] then e else [])"
  by simp

text \<open>
  C4: the summary is the first \<open>min(50, wordCount div 3)\<close> words of the text, joined by
  single spaces, followed by \<open>...\<close> exactly when words were left out; the words are
  the maximal pieces of the text without whitespace. A text of fewer than 3 words comes
  under the same rule: its summary is empty when it has no word and \<open>...\<close> otherwise.
\<close>

theorem summary_first_words:
  "mock_summary t =
     join '' '' (take (min 50 (length (split t) div 3)) (split t))
       @ (if drop (min 50 (length (split t) div 3)) (split t) \<noteq> [] then ''...'' else [])
   \<and> (length (split t) < 3 \<longrightarrow> mock_summary t = (if split t = [] then [] else ''...''))
   \<and> (\<forall>w \<in> set (split t). w \<noteq> [] \<and> list_all (\<lambda>c. \<not> isspace c) w)"
proof (intro conjI impI ballI)
  show "mock_summary t =
     join '' '' (take (min 50 (length (split t) div 3)) (split t))
       @ (if drop (min 50 (length (split t) div 3)) (split t) \<noteq> [] then ''...'' else [])"
    by (simp only: mock_summary_def Let_def ellipsis_iff_dropped)
next
  assume "length (split t) < 3"
  then have "length (split t) div 3 = 0" by simp
  then show "mock_summary t = (if split t = [] then [] else ''...'')"
    by (simp add: mock_summary_def Let_def)
next
  fix w assume "w \<in> set (split t)"
  then have "w \<in> set (split_from [] t)" by (simp only: split_def)
  then have "w \<noteq> [] \<and> list_all (\<lambda>c. \<not> isspace c) w" by (rule split_from_word) simp
  then show "w \<noteq> []" and "list_all (\<lambda>c. \<not> isspace c) w" by simp_all
qed

lemma split_hi_there: "split ''hi there'' = [''hi'', ''there'']"
  by code_simp

theorem summary_first_words_witness: "mock_summary ''hi there'' = ''...''"
  using summary_first_words [of "''hi there''"] by (simp add: split_hi_there)

text \<open>
  C5, as the claim states it: the AI phrasing is chosen when AI keywords are present,
  else the development phrasing, else the database phrasing. The keywords of the AI
  bucket include \<open>machine learning\<close>; the text \<open>machine learning\<close> matches that bucket
  and gets the tag \<open>AI\<close>, yet its narrative ends in the general clause. The text
  \<open>Python code and SQL data\<close> matches the buckets Development and Database, and its
  narrative ends in the general clause too.
\<close>

theorem bucket_keyword_without_its_clause:
  "any_in [''ai'', ''artificial intelligence'', ''machine learning'', ''ml'']
          (lower ''machine learning'')
   \<and> mock_ai_processing ''machine learning'' =
       \<lparr>res_summary = ''...'', res_tags = [''AI''],
        res_analysis = ''This content appears to be about ai. The text contains approximately 2 words and covers general knowledge and information.''\<rparr>
   \<and> any_in [''python'', ''javascript'', ''programming'', ''code'', ''development'']
          (lower ''Python code and SQL data'')
   \<and> any_in [''database'', ''sql'', ''data''] (lower ''Python code and SQL data'')
   \<and> mock_ai_processing ''Python code and SQL data'' =
       \<lparr>res_summary = ''Python...'', res_tags = [''Development'', ''Database''],
        res_analysis = ''This content appears to be about development, database. The text contains approximately 5 words and covers general knowledge and information.''\<rparr>"
  by code_simp

lemma tag_of_matching_bucket:
  "any_in [''ai'', ''artificial intelligence'', ''machine learning'', ''ml''] (lower t)
     \<Longrightarrow> ''AI'' \<in> set (mock_tags t)"
  "any_in [''python'', ''javascript'', ''programming'', ''code'', ''development''] (lower t)
     \<Longrightarrow> ''Development'' \<in> set (mock_tags t)"
  "any_in [''database'', ''sql'', ''data''] (lower t) \<Longrightarrow> ''Database'' \<in> set (mock_tags t)"
  by (simp_all add: mock_tags_def collect_tags_def Let_def)

text \<open>
  C5, amended: the narrative is the template \<open>This content appears to be about\<close>, the
  tags joined by a comma and a space and lowercased, \<open>. The text contains
  approximately\<close>, the number of words, \<open>words and covers\<close>, and a clause chosen by
  priority among three tests on the lowercased text: the AI phrasing when it contains
  \<open>ai\<close> or \<open>artificial intelligence\<close>; else the development phrasing when it contains
  \<open>development\<close> or \<open>programming\<close>; else the database phrasing when it contains
  \<open>database\<close>; else the general clause. The clause depends on these three tests only.
  Each test uses some of the keywords of its bucket, so a text that passes a test has
  the tag of that bucket (\<open>AI\<close>, \<open>Development\<close>, \<open>Database\<close>); the other keywords of
  the buckets give the tag without the phrasing.
\<close>

theorem analysis_template_by_tests:
  "mock_analysis t =
     ''This content appears to be about '' @ lower (join '', '' (mock_tags t)) @ ''. ''
     @ ''The text contains approximately '' @ str_of_nat (length (split t)) @ '' words and covers ''
     @ clause_by_priority
         (contains (lower t) ''ai'' \<or> contains (lower t) ''artificial intelligence'')
         (contains (lower t) ''development'' \<or> contains (lower t) ''programming'')
         (contains (lower t) ''database'')
   \<and> (contains (lower t) ''ai'' \<or> contains (lower t) ''artificial intelligence''
        \<longrightarrow> ''AI'' \<in> set (mock_tags t))
   \<and> (contains (lower t) ''development'' \<or> contains (lower t) ''programming''
        \<longrightarrow> ''Development'' \<in> set (mock_tags t))
   \<and> (contains (lower t) ''database'' \<longrightarrow> ''Database'' \<in> set (mock_tags t))"
proof (intro conjI impI)
  show "mock_analysis t =
     ''This content appears to be about '' @ lower (join '', '' (mock_tags t)) @ ''. ''
     @ ''The text contains approximately '' @ str_of_nat (length (split t)) @ '' words and covers ''
     @ clause_by_priority
         (contains (lower t) ''ai'' \<or> contains (lower t) ''artificial intelligence'')
         (contains (lower t) ''development'' \<or> contains (lower t) ''programming'')
         (contains (lower t) ''database'')"
    by (simp add: mock_analysis_def topic_clause_def clause_by_priority_def)
next
  assume "contains (lower t) ''ai'' \<or> contains (lower t) ''artificial intelligence''"
  then have "any_in [''ai'', ''artificial intelligence'', ''machine learning'', ''ml''] (lower t)"
    by (auto simp: any_in_def)
  then show "''AI'' \<in> set (mock_tags t)" by (rule tag_of_matching_bucket)
next
  assume "contains (lower t) ''development'' \<or> contains (lower t) ''programming''"
  then have "any_in [''python'', ''javascript'', ''programming'', ''code'', ''development''] (lower t)"
    by (auto simp: any_in_def)
  then show "''Development'' \<in> set (mock_tags t)" by (rule tag_of_matching_bucket)
next
  assume "contains (lower t) ''database''"
  then have "any_in [''database'', ''sql'', ''data''] (lower t)"
    by (auto simp: any_in_def)
  then show "''Database'' \<in> set (mock_tags t)" by (rule tag_of_matching_bucket)
qed

lemma python_sql_parts:
  "lower (join '', '' (mock_tags ''Python programs and SQL databases'')) = ''development, database''
   \<and> str_of_nat (length (split ''Python programs and SQL databases'')) = ''5''
   \<and> \<not> contains (lower ''Python programs and SQL databases'') ''ai''
   \<and> \<not> contains (lower ''Python programs and SQL databases'') ''artificial intelligence''
   \<and> \<not> contains (lower ''Python programs and SQL databases'') ''development''
   \<and> \<not> contains (lower ''Python programs and SQL databases'') ''programming''
   \<and> contains (lower ''Python programs and SQL databases'') ''database''"
  by code_simp

theorem analysis_template_by_tests_witness:
  "mock_analysis ''Python programs and SQL databases'' =
     ''This content appears to be about development, database. The text contains approximately 5 words and covers database design and management principles.''
   \<and> ''Database'' \<in> set (mock_tags ''Python programs and SQL databases'')"
  using analysis_template_by_tests [of "''Python programs and SQL databases''"]
  by (simp add: python_sql_parts clause_by_priority_def)

section \<open>Properties of the store\<close>


lemma assign_fixed:
  "assign r kv = Inr r' \<Longrightarrow> same_fixed r r' \<and> updated_at r' = updated_at r"
  by (cases kv) (auto simp: assign_def same_fixed_def split: if_splits sqlval.splits)

lemma assign_all_fixed:
  "assign_all r kvs = Inr r' \<Longrightarrow> same_fixed r r' \<and> updated_at r' = updated_at r"
proof (induction kvs arbitrary: r)
  case Nil
  then show ?case by (simp add: same_fixed_def)
next
  case (Cons kv kvs)
  then obtain r1 where a: "assign r kv = Inr r1" and b: "assign_all r1 kvs = Inr r'"
    by (auto split: sum.splits)
  from assign_fixed [OF a] Cons.IH [OF b] show ?case by (simp add: same_fixed_def)
qed

lemma update_rows_fixed:
  assumes "update_rows f i rs = Inr rs'" and "\<And>r r'. f r = Inr r' \<Longrightarrow> same_fixed r r'"
  shows "list_all2 (\<lambda>r r'. same_fixed r r' \<and> (item_id r \<noteq> i \<or> \<not> is_active r \<longrightarrow> r' = r)) rs rs'"
  using assms(1)
proof (induction rs arbitrary: rs')
  case Nil
  then show ?case by simp
next
  case (Cons r rs)
  then obtain r1 rs1 where
    h: "(if item_id r = i \<and> is_active r then f r else Inr r) = Inr r1"
    and t: "update_rows f i rs = Inr rs1" and e: "rs' = r1 # rs1"
    by (auto split: sum.splits)
  have "same_fixed r r1 \<and> (item_id r \<noteq> i \<or> \<not> is_active r \<longrightarrow> r1 = r)"
    using h assms(2) [of r r1] by (auto simp: same_fixed_def split: if_splits)
  with Cons.IH [OF t] e show ?case by simp
qed

lemma update_rows_untouched:
  "\<forall>r \<in> set rs. item_id r \<noteq> i \<or> \<not> is_active r \<Longrightarrow> update_rows f i rs = Inr rs"
  by (induction rs) auto


lemma assign_kept: "assign r kv = Inr r' \<Longrightarrow> fst kv \<in> keys \<Longrightarrow> kept keys r r'"
  by (cases kv) (auto simp: assign_def kept_def split: if_splits sqlval.splits)

lemma assign_all_kept:
  "assign_all r kvs = Inr r' \<Longrightarrow> fst ` set kvs \<subseteq> keys \<Longrightarrow> kept keys r r'"
proof (induction kvs arbitrary: r)
  case Nil
  then show ?case by (simp add: kept_def)
next
  case (Cons kv kvs)
  then obtain r1 where a: "assign r kv = Inr r1" and b: "assign_all r1 kvs = Inr r'"
    by (auto split: sum.splits)
  have "kept keys r r1" using a Cons.prems(2) by (intro assign_kept) auto
  moreover have "kept keys r1 r'" using b Cons.prems(2) by (intro Cons.IH) auto
  ultimately show ?case by (auto simp: kept_def)
qed

lemma update_rows_kept:
  assumes "update_rows f i rs = Inr rs'" and "\<And>r r'. f r = Inr r' \<Longrightarrow> kept keys r r'"
  shows "list_all2 (kept keys) rs rs'"
  using assms(1)
proof (induction rs arbitrary: rs')
  case Nil
  then show ?case by simp
next
  case (Cons r rs)
  then obtain r1 rs1 where
    h: "(if item_id r = i \<and> is_active r then f r else Inr r) = Inr r1"
    and t: "update_rows f i rs = Inr rs1" and e: "rs' = r1 # rs1"
    by (auto split: sum.splits)
  have "kept keys r r1"
    using h assms(2) [of r r1] by (auto simp: kept_def split: if_splits)
  with Cons.IH [OF t] e show ?case by simp
qed

lemma set_clauses_keys: "fst ` set (set_clauses kwargs) \<subseteq> fst ` set kwargs"
  by (force simp: set_clauses_def)

lemma set_clauses_filter:
  "set_clauses (filter (\<lambda>(key, v). key \<in> set updatable) kwargs) = set_clauses kwargs"
  by (simp add: set_clauses_def)

lemma set_clauses_Nil_iff:
  "set_clauses kwargs = [] \<longleftrightarrow> filter (\<lambda>(key, v). key \<in> set updatable) kwargs = []"
  by (simp add: set_clauses_def)

lemma update_ignores_unrecognized:
  "update_knowledge_item s now i (filter (\<lambda>(key, v). key \<in> set updatable) kwargs)
     = update_knowledge_item s now i kwargs"
proof (cases "filter (\<lambda>(key, v). key \<in> set updatable) kwargs = []")
  case True
  then have "set_clauses kwargs = []" by (simp only: set_clauses_Nil_iff)
  with True show ?thesis by (simp add: update_knowledge_item_def)
next
  case False
  then have "kwargs \<noteq> []" by auto
  with False show ?thesis
    by (simp only: update_knowledge_item_def set_clauses_filter if_False)
qed

lemma update_frame:
  assumes "update_knowledge_item s now i kwargs = Inr (b, s')"
  shows "seq s' = seq s
    \<and> list_all2 (\<lambda>r r'. same_fixed r r' \<and> kept (fst ` set kwargs) r r'
                          \<and> (item_id r \<noteq> i \<or> \<not> is_active r \<longrightarrow> r' = r)) (rows s) (rows s')"
proof (cases "kwargs = [] \<or> set_clauses kwargs = []")
  case True
  with assms have "s' = s" by (auto simp: update_knowledge_item_def Let_def split: if_splits)
  then show ?thesis by (simp add: list_all2_same same_fixed_def kept_def)
next
  case False
  define f where "f = (\<lambda>r. case assign_all r (set_clauses kwargs) of
                              Inl e \<Rightarrow> Inl e
                            | Inr r' \<Rightarrow> (Inr (r'\<lparr>updated_at := now\<rparr>) :: db_error + row))"
  from False assms obtain rs' where
    u: "update_rows f i (rows s) = Inr rs'" and s': "s' = s\<lparr>rows := rs'\<rparr>"
    by (auto simp: update_knowledge_item_def f_def Let_def split: if_splits sum.splits)
  have fx: "\<And>r r'. f r = Inr r' \<Longrightarrow> same_fixed r r'"
    using assign_all_fixed by (fastforce simp: f_def same_fixed_def split: sum.splits)
  have kp: "\<And>r r'. f r = Inr r' \<Longrightarrow> kept (fst ` set kwargs) r r'"
  proof -
    fix r r' assume "f r = Inr r'"
    then obtain r1 where a: "assign_all r (set_clauses kwargs) = Inr r1"
      and e: "r' = r1\<lparr>updated_at := now\<rparr>"
      by (auto simp: f_def split: sum.splits)
    from assign_all_kept [OF a set_clauses_keys] e
    show "kept (fst ` set kwargs) r r'" by (simp add: kept_def)
  qed
  from update_rows_fixed [OF u fx] update_rows_kept [OF u kp]
  have "list_all2 (\<lambda>r r'. same_fixed r r' \<and> kept (fst ` set kwargs) r r'
                          \<and> (item_id r \<noteq> i \<or> \<not> is_active r \<longrightarrow> r' = r)) (rows s) rs'"
    by (simp add: list_all2_conv_all_nth)
  with s' show ?thesis by simp
qed


text \<open>
  C6: an update with no field returns \<open>False\<close> and leaves the table, the \<open>updated_at\<close>
  of every row with it, as it was; the fields outside \<open>title\<close>, \<open>content\<close>,
  \<open>source_url\<close>, \<open>tags\<close>, \<open>summary\<close>, \<open>ai_analysis\<close> are ignored, the call being the
  one without them; and a call that returns changes, in no row, the id, the source
  type, the creation time or the active flag, changes none of the six columns whose key
  it was not given, and changes no row but the active ones with the given id.
\<close>

theorem update_changes_only_given_fields:
  "update_knowledge_item s now i [] = Inr (False, s)
   \<and> update_knowledge_item s now i kwargs
       = update_knowledge_item s now i (filter (\<lambda>(key, v). key \<in> set updatable) kwargs)
   \<and> (\<forall>b s'. update_knowledge_item s now i kwargs = Inr (b, s') \<longrightarrow>
         seq s' = seq s \<and> length (rows s') = length (rows s)
         \<and> (\<forall>k < length (rows s).
               item_id (rows s' ! k) = item_id (rows s ! k)
               \<and> source_type (rows s' ! k) = source_type (rows s ! k)
               \<and> created_at (rows s' ! k) = created_at (rows s ! k)
               \<and> is_active (rows s' ! k) = is_active (rows s ! k)
               \<and> kept (fst ` set kwargs) (rows s ! k) (rows s' ! k)
               \<and> (item_id (rows s ! k) \<noteq> i \<or> \<not> is_active (rows s ! k)
                    \<longrightarrow> rows s' ! k = rows s ! k)))"
proof (intro conjI allI impI)
  show "update_knowledge_item s now i [] = Inr (False, s)"
    by (simp add: update_knowledge_item_def)
next
  show "update_knowledge_item s now i kwargs
       = update_knowledge_item s now i (filter (\<lambda>(key, v). key \<in> set updatable) kwargs)"
    by (rule update_ignores_unrecognized [symmetric])
next
  fix b s' assume u: "update_knowledge_item s now i kwargs = Inr (b, s')"
  note fr = update_frame [OF u]
  from fr show "seq s' = seq s" by simp
  from fr show "length (rows s') = length (rows s)" by (simp add: list_all2_conv_all_nth)
  fix k assume k: "k < length (rows s)"
  with fr have *: "same_fixed (rows s ! k) (rows s' ! k)
      \<and> kept (fst ` set kwargs) (rows s ! k) (rows s' ! k)
      \<and> (item_id (rows s ! k) \<noteq> i \<or> \<not> is_active (rows s ! k) \<longrightarrow> rows s' ! k = rows s ! k)"
    by (simp add: list_all2_conv_all_nth)
  from * show "item_id (rows s' ! k) = item_id (rows s ! k)" by (simp add: same_fixed_def)
  from * show "source_type (rows s' ! k) = source_type (rows s ! k)" by (simp add: same_fixed_def)
  from * show "created_at (rows s' ! k) = created_at (rows s ! k)" by (simp add: same_fixed_def)
  from * show "is_active (rows s' ! k) = is_active (rows s ! k)" by (simp add: same_fixed_def)
  from * show "kept (fst ` set kwargs) (rows s ! k) (rows s' ! k)" by simp
  assume "item_id (rows s ! k) \<noteq> i \<or> \<not> is_active (rows s ! k)"
  with * show "rows s' ! k = rows s ! k" by simp
qed

lemma notes_retitled:
  "update_knowledge_item six_notes 20 2
      [(''title'', PStr ''BETA''), (''source_type'', PStr ''file''), (''bogus'', PList [])]
   = Inr (True, six_notes\<lparr>rows := (rows six_notes)[1 := (rows six_notes ! 1)\<lparr>title := ''BETA'', updated_at := 20\<rparr>]\<rparr>)"
  by code_simp

theorem update_changes_only_given_fields_witness:
  "update_knowledge_item six_notes 20 2 [(''title'', PStr ''BETA'')]
     = Inr (True, six_notes\<lparr>rows := (rows six_notes)[1 := (rows six_notes ! 1)\<lparr>title := ''BETA'', updated_at := 20\<rparr>]\<rparr>)
   \<and> source_type ((rows six_notes)[1 := (rows six_notes ! 1)\<lparr>title := ''BETA'', updated_at := 20\<rparr>] ! 1)
       = source_type (rows six_notes ! 1)"
proof -
  have len: "(1::nat) < length (rows six_notes)" by (simp add: six_notes_def)
  have f: "filter (\<lambda>(key, v). key \<in> set updatable)
             [(''title'', PStr ''BETA''), (''source_type'', PStr ''file''), (''bogus'', PList [])]
           = [(''title'', PStr ''BETA'')]"
    by (simp add: updatable_def)
  from update_changes_only_given_fields
         [of six_notes 20 2 "[(''title'', PStr ''BETA''), (''source_type'', PStr ''file''), (''bogus'', PList [])]"]
       notes_retitled len f
  show ?thesis by simp
qed


lemma decode_row_as_item: "decode_row jl r = Inr it \<Longrightarrow> \<exists>v. it = as_item r v"
  by (auto simp: decode_row_def split: tags_col.splits if_splits option.splits)

lemma decode_rows_as_items:
  "decode_rows jl rs = Inr items \<Longrightarrow> list_all2 (\<lambda>r it. \<exists>v. it = as_item r v) rs items"
proof (induction rs arbitrary: items)
  case Nil
  then show ?case by simp
next
  case (Cons r rs)
  then obtain it its where h: "decode_row jl r = Inr it" and t: "decode_rows jl rs = Inr its"
    and e: "items = it # its"
    by (auto split: sum.splits)
  from decode_row_as_item [OF h] Cons.IH [OF t] e show ?case by simp
qed

lemma decode_rows_ids: "decode_rows jl rs = Inr items \<Longrightarrow> map item_id items = map item_id rs"
proof -
  assume "decode_rows jl rs = Inr items"
  then have "list_all2 (\<lambda>r it. \<exists>v. it = as_item r v) rs items" by (rule decode_rows_as_items)
  then have "list_all2 (\<lambda>r it. item_id it = item_id r) rs items"
    by (rule list_all2_mono) (auto simp: as_item_def)
  then show ?thesis by (induction rule: list_all2_induct) simp_all
qed

lemma set_limit_offset: "set (limit_offset lim off xs) \<subseteq> set xs"
proof -
  have "set (drop (nat off) xs) \<subseteq> set xs" by (rule set_drop_subset)
  moreover have "set (take (nat lim) (drop (nat off) xs)) \<subseteq> set (drop (nat off) xs)"
    by (rule set_take_subset)
  ultimately show ?thesis by (auto simp: limit_offset_def Let_def)
qed

lemma set_order_by: "set (order_by_created_at_desc rs) = set rs"
  by (simp add: order_by_created_at_desc_def)

lemma filter_active_deactivated:
  "filter (\<lambda>r. is_active r \<and> Q r) (map (deactivate now i) rs)
     = filter (\<lambda>r. is_active r \<and> Q r) (filter (\<lambda>r. item_id r \<noteq> i) rs)"
  by (induction rs) (auto simp: deactivate_def)

lemma delete_rows: "rows (snd (delete_knowledge_item s now i)) = map (deactivate now i) (rows s)"
  by (simp add: delete_knowledge_item_def deactivate_def)

lemma active_after_delete:
  "delete_knowledge_item s now i = (b, s') \<Longrightarrow>
   filter (\<lambda>r. is_active r \<and> Q r) (rows s')
     = filter (\<lambda>r. is_active r \<and> Q r) (rows (without_item i s))"
  using delete_rows [of s now i] filter_active_deactivated [of Q now i "rows s"]
  by (simp add: without_item_def)

lemma active_after_delete_plain:
  "delete_knowledge_item s now i = (b, s') \<Longrightarrow>
   filter is_active (rows s') = filter is_active (rows (without_item i s))"
  using active_after_delete [of s now i b s' "\<lambda>r. True"] by simp

lemma no_active_row_after_delete:
  assumes "delete_knowledge_item s now i = (b, s')" and "r \<in> set (rows s')"
  shows "item_id r \<noteq> i \<or> \<not> is_active r"
proof -
  from assms(1) have "snd (delete_knowledge_item s now i) = s'" by simp
  then have "rows s' = map (deactivate now i) (rows s)" using delete_rows [of s now i] by simp
  with assms(2) obtain r0 where "r = deactivate now i r0" by auto
  then show ?thesis by (cases "item_id r0 = i \<and> is_active r0") (auto simp: deactivate_def)
qed

lemma rowcount_zero: "\<forall>r \<in> set rs. item_id r \<noteq> i \<or> \<not> is_active r \<Longrightarrow> rowcount i rs = 0"
  by (auto simp: rowcount_def filter_empty_conv)

lemma find_none: "\<forall>r \<in> set rs. item_id r \<noteq> i \<or> \<not> is_active r \<Longrightarrow>
   find (\<lambda>r. item_id r = i \<and> is_active r) rs = None"
  by (auto simp: find_None_iff)

lemma update_without_row:
  assumes "\<forall>r \<in> set (rows s). item_id r \<noteq> i \<or> \<not> is_active r"
  shows "update_knowledge_item s now i kwargs = Inr (False, s)
         \<or> update_knowledge_item s now i kwargs = Inl InterfaceError"
    and "Unbindable \<notin> snd ` set (set_clauses kwargs) \<Longrightarrow>
         update_knowledge_item s now i kwargs = Inr (False, s)"
proof -
  define f where "f = (\<lambda>r. case assign_all r (set_clauses kwargs) of
                              Inl e \<Rightarrow> Inl e
                            | Inr r' \<Rightarrow> (Inr (r'\<lparr>updated_at := now\<rparr>) :: db_error + row))"
  have u: "update_rows f i (rows s) = Inr (rows s)"
    using assms by (rule update_rows_untouched)
  have c: "rowcount i (rows s) = 0" using assms by (rule rowcount_zero)
  have e: "update_knowledge_item s now i kwargs =
      (if kwargs = [] then Inr (False, s)
       else if set_clauses kwargs = [] then Inr (False, s)
       else if Unbindable \<in> set (map snd (set_clauses kwargs)) then Inl InterfaceError
       else Inr (False, s))"
    unfolding update_knowledge_item_def Let_def f_def [symmetric] u c by simp
  show "update_knowledge_item s now i kwargs = Inr (False, s)
         \<or> update_knowledge_item s now i kwargs = Inl InterfaceError"
    unfolding e by simp
  show "Unbindable \<notin> snd ` set (set_clauses kwargs) \<Longrightarrow>
         update_knowledge_item s now i kwargs = Inr (False, s)"
    unfolding e by simp
qed

lemma delete_without_row:
  assumes "\<forall>r \<in> set (rows s). item_id r \<noteq> i \<or> \<not> is_active r"
  shows "delete_knowledge_item s now i = (False, s)"
proof -
  have "map (\<lambda>r. if item_id r = i \<and> is_active r
                  then r\<lparr>is_active := False, updated_at := now\<rparr> else r) (rows s) = rows s"
    using assms by (intro map_idI) auto
  then show ?thesis using rowcount_zero [OF assms] by (simp add: delete_knowledge_item_def)
qed


lemma selected_ids:
  assumes "decode_rows jl (limit_offset lim off (order_by_created_at_desc (filter P rs))) = Inr items"
  shows "item_id ` set items \<subseteq> item_id ` {r \<in> set rs. P r}"
proof -
  have "map item_id items
        = map item_id (limit_offset lim off (order_by_created_at_desc (filter P rs)))"
    using assms by (rule decode_rows_ids)
  then have "item_id ` set items
        = item_id ` set (limit_offset lim off (order_by_created_at_desc (filter P rs)))"
    by (metis set_map)
  also have "\<dots> \<subseteq> item_id ` set (order_by_created_at_desc (filter P rs))"
    by (rule image_mono) (rule set_limit_offset)
  also have "\<dots> = item_id ` {r \<in> set rs. P r}"
    by (simp add: set_order_by)
  finally show ?thesis .
qed

text \<open>
  C7: after a delete of the id \<open>i\<close> that returned \<open>True\<close>, reading \<open>i\<close> gives
  \<open>None\<close>; the list, the search and the statistics give what they would give had the
  rows with that id never been stored, and no item they return has the id \<open>i\<close>;
  another delete of \<open>i\<close> returns \<open>False\<close>, and so does an update of \<open>i\<close> (an update
  whose values \<open>sqlite3\<close> can bind returns, and none returns \<open>True\<close>); both leave
  the table as it is.
\<close>

theorem deleted_item_is_absent:
  assumes "delete_knowledge_item s now i = (True, s')"
  shows "get_knowledge_item jl s' i = Inr None
   \<and> get_all_knowledge_items jl s' lim off = get_all_knowledge_items jl (without_item i s) lim off
   \<and> (\<forall>items. get_all_knowledge_items jl s' lim off = Inr items \<longrightarrow> i \<notin> item_id ` set items)
   \<and> search_knowledge_items jl s' query lim = search_knowledge_items jl (without_item i s) query lim
   \<and> (\<forall>items. search_knowledge_items jl s' query lim = Inr items \<longrightarrow> i \<notin> item_id ` set items)
   \<and> get_knowledge_stats jl s' = get_knowledge_stats jl (without_item i s)
   \<and> delete_knowledge_item s' now' i = (False, s')
   \<and> (\<forall>b s''. update_knowledge_item s' now' i kwargs = Inr (b, s'') \<longrightarrow> \<not> b \<and> s'' = s')
   \<and> (Unbindable \<notin> snd ` set (set_clauses kwargs)
        \<longrightarrow> update_knowledge_item s' now' i kwargs = Inr (False, s'))"
proof -
  have gone: "\<forall>r \<in> set (rows s'). item_id r \<noteq> i \<or> \<not> is_active r"
    using no_active_row_after_delete [OF assms] by blast
  have get: "get_knowledge_item jl s' i = Inr None"
    using find_none [OF gone] by (simp add: get_knowledge_item_def)
  have all: "get_all_knowledge_items jl s' lim off
               = get_all_knowledge_items jl (without_item i s) lim off" for lim off
    by (simp only: get_all_knowledge_items_def select_active_def active_after_delete_plain [OF assms])
  have all_ids: "i \<notin> item_id ` set items"
    if "get_all_knowledge_items jl s' lim off = Inr items" for items
  proof -
    from that have "item_id ` set items \<subseteq> item_id ` {r \<in> set (rows s'). is_active r}"
      unfolding get_all_knowledge_items_def select_active_def by (rule selected_ids)
    with gone show ?thesis by auto
  qed
  have search: "search_knowledge_items jl s' query lim
                  = search_knowledge_items jl (without_item i s) query lim"
    by (simp only: search_knowledge_items_def Let_def active_after_delete [OF assms])
  have search_ids: "i \<notin> item_id ` set items"
    if "search_knowledge_items jl s' query lim = Inr items" for items
  proof -
    from that have "item_id ` set items
        \<subseteq> item_id ` {r \<in> set (rows s'). is_active r \<and> matches (''%'' @ query @ ''%'') r}"
      unfolding search_knowledge_items_def Let_def by (rule selected_ids)
    with gone show ?thesis by auto
  qed
  have stats: "get_knowledge_stats jl s' = get_knowledge_stats jl (without_item i s)"
    by (simp only: get_knowledge_stats_def all)
  have del: "delete_knowledge_item s' now' i = (False, s')"
    using gone by (rule delete_without_row)
  have upd: "\<forall>b s''. update_knowledge_item s' now' i kwargs = Inr (b, s'') \<longrightarrow> \<not> b \<and> s'' = s'"
    using update_without_row(1) [OF gone, of now' kwargs] by auto
  have upd': "Unbindable \<notin> snd ` set (set_clauses kwargs)
        \<longrightarrow> update_knowledge_item s' now' i kwargs = Inr (False, s')"
    using update_without_row(2) [OF gone, of kwargs now'] by blast
  from get all all_ids search search_ids stats del upd upd' show ?thesis by blast
qed

lemma delete_beta: "fst (delete_knowledge_item six_notes 30 2) = True"
  by code_simp

lemma clauses_retitle: "set_clauses [(''title'', PStr ''BETA'')] = [(''title'', SqlText ''BETA'')]"
  by (simp add: set_clauses_def updatable_def bind_value_def)

theorem deleted_item_is_absent_witness:
  "get_knowledge_item no_json (snd (delete_knowledge_item six_notes 30 2)) 2 = Inr None
   \<and> get_knowledge_stats no_json (snd (delete_knowledge_item six_notes 30 2))
       = get_knowledge_stats no_json (without_item 2 six_notes)
   \<and> delete_knowledge_item (snd (delete_knowledge_item six_notes 30 2)) 31 2
       = (False, snd (delete_knowledge_item six_notes 30 2))
   \<and> update_knowledge_item (snd (delete_knowledge_item six_notes 30 2)) 31 2
         [(''title'', PStr ''BETA'')]
       = Inr (False, snd (delete_knowledge_item six_notes 30 2))"
proof -
  have h: "delete_knowledge_item six_notes 30 2 = (True, snd (delete_knowledge_item six_notes 30 2))"
    using delete_beta by (simp add: prod_eq_iff)
  from deleted_item_is_absent [OF h, of no_json _ _ _ 31 "[(''title'', PStr ''BETA'')]"]
  show ?thesis by (simp add: clauses_retitle)
qed


lemma fold_max_ge: "(a::int) \<le> fold max xs a"
proof (induction xs arbitrary: a)
  case Nil
  then show ?case by simp
next
  case (Cons x xs)
  have "a \<le> max x a" by simp
  also have "\<dots> \<le> fold max xs (max x a)" by (rule Cons.IH)
  finally show ?case by simp
qed

lemma fold_max_mem: "x \<in> set xs \<Longrightarrow> (x::int) \<le> fold max xs a"
proof (induction xs arbitrary: a)
  case Nil
  then show ?case by simp
next
  case (Cons y ys)
  show ?case
  proof (cases "x = y")
    case True
    have "x \<le> max y a" using True by simp
    also have "\<dots> \<le> fold max ys (max y a)" by (rule fold_max_ge)
    finally show ?thesis by simp
  next
    case False
    with Cons.prems have "x \<in> set ys" by simp
    then have "x \<le> fold max ys (max y a)" by (rule Cons.IH)
    then show ?thesis by simp
  qed
qed

lemma next_rowid_fresh: "r \<in> set (rows s) \<Longrightarrow> item_id r < next_rowid s"
proof -
  assume "r \<in> set (rows s)"
  then have "item_id r \<in> set (map item_id (rows s))" by simp
  then have "item_id r \<le> fold max (map item_id (rows s)) (seq s)" by (rule fold_max_mem)
  then show ?thesis by (simp add: next_rowid_def)
qed

lemma find_new_row:
  assumes "\<forall>r \<in> set rs. \<not> P r" and "P x"
  shows "find P (rs @ [x]) = Some x"
  using assms by (induction rs) simp_all

text \<open>
  C8, as the claim states it: the tags list is read back exactly as it was given. A note
  created with the empty list of tags is stored with \<open>NULL\<close> in the column and read
  back with \<open>None\<close>, not with the empty list.
\<close>

theorem empty_tags_read_back_as_none:
  "create_knowledge_item empty_store 7 ''Note'' ''Content of the note'' ''text'' None (Some [])
       None None
     = Inr (1, untagged_note_store)
   \<and> get_knowledge_item no_json untagged_note_store 1
     = Inr (Some \<lparr>item_id = 1, title = ''Note'', content = ''Content of the note'',
                  source_type = ''text'', source_url = None, tags = PNone, summary = None,
                  ai_analysis = None, created_at = 7, updated_at = 7, is_active = True\<rparr>)"
  by code_simp

text \<open>
  C8, amended: when a create returns an id, reading that id at once gives an item with
  the title, content, source type, source URL, summary and analysis that were supplied,
  with the tags list as it was given when that list is not empty, and with \<open>None\<close> for
  the tags when the list was empty or no tags were supplied; the id is the returned
  one, both timestamps are the time of the create, and the item is active.
\<close>

theorem create_then_get:
  assumes "create_knowledge_item s now ttl cnt stype surl tgs summ analysis = Inr (i, s')"
  shows "get_knowledge_item jl s' i =
           Inr (Some \<lparr>item_id = i, title = ttl, content = cnt, source_type = stype,
                      source_url = surl,
                      tags = (case tgs of None \<Rightarrow> PNone
                              | Some l \<Rightarrow> if l = [] then PNone else PList l),
                      summary = summ, ai_analysis = analysis, created_at = now,
                      updated_at = now, is_active = True\<rparr>)"
proof -
  define new where "new = \<lparr>item_id = next_rowid s, title = ttl, content = cnt, source_type = stype,
      source_url = surl,
      tags = (case tgs of None \<Rightarrow> TagsNull | Some l \<Rightarrow> if l \<noteq> [] then TagsJson l else TagsNull),
      summary = summ, ai_analysis = analysis, created_at = now, updated_at = now,
      is_active = True\<rparr>"
  from assms have i: "i = next_rowid s" and s': "rows s' = rows s @ [new]"
    by (auto simp: create_knowledge_item_def Let_def new_def split: if_splits)
  have "\<forall>r \<in> set (rows s). \<not> (item_id r = i \<and> is_active r)"
    using next_rowid_fresh [of _ s] i by fastforce
  moreover have "item_id new = i \<and> is_active new" by (simp add: new_def i)
  ultimately have f: "find (\<lambda>r. item_id r = i \<and> is_active r) (rows s') = Some new"
    unfolding s' by (rule find_new_row)
  have d: "decode_row jl new =
      Inr (as_item new (case tgs of None \<Rightarrow> PNone | Some l \<Rightarrow> if l = [] then PNone else PList l))"
    by (simp add: decode_row_def new_def split: option.splits)
  show ?thesis
    unfolding get_knowledge_item_def f by (simp add: d) (simp add: as_item_def new_def i)
qed

lemma create_tagged:
  "\<exists>s'. create_knowledge_item six_notes 40 ''eta'' ''Content of eta'' ''url''
       (Some ''http://example.org/eta'') (Some [''web'', ''api'']) (Some ''About eta'') None
     = Inr (7, s')"
  by (simp add: create_knowledge_item_def Let_def next_rowid_def six_notes_def stored_note_def)

theorem create_then_get_witness:
  "get_knowledge_item no_json
     (snd (projr (create_knowledge_item six_notes 40 ''eta'' ''Content of eta'' ''url''
                    (Some ''http://example.org/eta'') (Some [''web'', ''api''])
                    (Some ''About eta'') None))) 7
   = Inr (Some \<lparr>item_id = 7, title = ''eta'', content = ''Content of eta'', source_type = ''url'',
                source_url = Some ''http://example.org/eta'', tags = PList [''web'', ''api''],
                summary = Some ''About eta'', ai_analysis = None, created_at = 40,
                updated_at = 40, is_active = True\<rparr>)"
proof -
  from create_tagged obtain s' where
    c: "create_knowledge_item six_notes 40 ''eta'' ''Content of eta'' ''url''
          (Some ''http://example.org/eta'') (Some [''web'', ''api'']) (Some ''About eta'') None
        = Inr (7, s')" ..
  from create_then_get [OF c, of no_json] show ?thesis by (simp add: c)
qed


lemma decode_rows_append:
  "decode_rows jl a = Inr x \<Longrightarrow> decode_rows jl b = Inr y \<Longrightarrow> decode_rows jl (a @ b) = Inr (x @ y)"
  by (induction a arbitrary: x) (auto split: sum.splits)

lemma decode_rows_column:
  assumes "decode_rows jl rs = Inr items"
  shows "map created_at items = map created_at rs" and "map is_active items = map is_active rs"
    and "length items = length rs"
proof -
  from assms have a: "list_all2 (\<lambda>r it. \<exists>v. it = as_item r v) rs items"
    by (rule decode_rows_as_items)
  then have "list_all2 (\<lambda>r it. created_at it = created_at r \<and> is_active it = is_active r) rs items"
    by (rule list_all2_mono) (auto simp: as_item_def)
  then show "map created_at items = map created_at rs" and "map is_active items = map is_active rs"
    by (induction rule: list_all2_induct) simp_all
  from a show "length items = length rs" by (simp add: list_all2_lengthD)
qed

lemma sorted_desc_order_by:
  "sorted_wrt (\<lambda>a b. created_at b \<le> created_at a) (order_by_created_at_desc rs)"
proof -
  have "sorted (map (\<lambda>r. - int (created_at r)) (order_by_created_at_desc rs))"
    unfolding order_by_created_at_desc_def by (rule sorted_sort_key)
  then show ?thesis by (simp add: sorted_map)
qed

lemma sorted_desc_limit_offset:
  "sorted_wrt R xs \<Longrightarrow> sorted_wrt R (limit_offset lim off xs)"
  by (simp add: limit_offset_def Let_def sorted_wrt_drop sorted_wrt_take)

lemma sorted_desc_items:
  assumes "map created_at items = map created_at rs"
    and "sorted_wrt (\<lambda>a b. created_at b \<le> created_at a) rs"
  shows "sorted_wrt (\<lambda>a b. created_at b \<le> created_at a) items"
proof -
  from assms(2) have "sorted_wrt (\<lambda>a b. b \<le> a) (map created_at rs)"
    by (simp add: sorted_wrt_map)
  with assms(1) have "sorted_wrt (\<lambda>a b. b \<le> a) (map created_at items)" by simp
  then show ?thesis by (simp add: sorted_wrt_map)
qed

lemma consecutive_pages:
  assumes "0 \<le> lim" and "0 \<le> off"
  shows "limit_offset lim off xs @ limit_offset lim (off + lim) xs = limit_offset (2 * lim) off xs"
proof -
  have n: "nat (off + lim) = nat lim + nat off" "nat (2 * lim) = nat lim + nat lim"
    using assms by simp_all
  have "take (nat lim) (drop (nat off) xs) @ take (nat lim) (drop (nat lim) (drop (nat off) xs))
        = take (nat lim + nat lim) (drop (nat off) xs)"
    by (rule take_add [symmetric])
  then show ?thesis using assms by (simp add: limit_offset_def Let_def n)
qed

lemma five_in_three_pages:
  assumes "length xs = 5"
  shows "limit_offset 2 0 xs = take 2 xs" and "limit_offset 2 2 xs = take 2 (drop 2 xs)"
    and "limit_offset 2 4 xs = drop 4 xs" and "limit_offset 5 0 xs = xs"
    and "take 2 xs @ take 2 (drop 2 xs) @ drop 4 xs = xs"
proof -
  show "limit_offset 2 0 xs = take 2 xs" by (simp add: limit_offset_def)
  show "limit_offset 2 2 xs = take 2 (drop 2 xs)" by (simp add: limit_offset_def)
  show "limit_offset 2 4 xs = drop 4 xs" using assms by (simp add: limit_offset_def)
  show "limit_offset 5 0 xs = xs" using assms by (simp add: limit_offset_def)
  have "take 2 (drop 2 xs) @ drop 2 (drop 2 xs) = drop 2 xs" by (rule append_take_drop_id)
  then have "take 2 (drop 2 xs) @ drop 4 xs = drop 2 xs" by simp
  then show "take 2 xs @ take 2 (drop 2 xs) @ drop 4 xs = xs" by simp
qed


text \<open>
  C9: the list gives active items by falling \<open>created_at\<close>, and consecutive pages
  follow one another in that order without overlap and without gap: the page at
  \<open>offset\<close> followed by the page at \<open>offset + limit\<close> is the page of twice the limit at
  \<open>offset\<close>. Over five active items the pages of limit 2 at the offsets 0, 2 and 4
  have 2, 2 and 1 items; one after the other they are the whole list of the five, each
  active row once, by falling \<open>created_at\<close>, and with no id twice when the ids of the
  table are distinct.
\<close>

theorem list_pages_partition:
  "(\<forall>items. get_all_knowledge_items jl s lim off = Inr items \<longrightarrow>
       sorted_wrt (\<lambda>a b. created_at b \<le> created_at a) items
       \<and> item_id ` set items \<subseteq> item_id ` {r \<in> set (rows s). is_active r})
   \<and> (0 \<le> lim \<and> 0 \<le> off \<longrightarrow>
        select_active s lim off @ select_active s lim (off + lim) = select_active s (2 * lim) off)
   \<and> (length (filter is_active (rows s)) = 5
        \<and> get_all_knowledge_items jl s 2 0 = Inr p0
        \<and> get_all_knowledge_items jl s 2 2 = Inr p1
        \<and> get_all_knowledge_items jl s 2 4 = Inr p2 \<longrightarrow>
          length p0 = 2 \<and> length p1 = 2 \<and> length p2 = 1
          \<and> get_all_knowledge_items jl s 5 0 = Inr (p0 @ p1 @ p2)
          \<and> mset (map item_id (p0 @ p1 @ p2)) = mset (map item_id (filter is_active (rows s)))
          \<and> sorted_wrt (\<lambda>a b. created_at b \<le> created_at a) (p0 @ p1 @ p2)
          \<and> (distinct (map item_id (rows s)) \<longrightarrow> distinct (map item_id (p0 @ p1 @ p2))))"
proof (intro conjI allI impI)
  fix items assume g: "get_all_knowledge_items jl s lim off = Inr items"
  then have d: "decode_rows jl (select_active s lim off) = Inr items"
    by (simp add: get_all_knowledge_items_def)
  have "sorted_wrt (\<lambda>a b. created_at b \<le> created_at a) (select_active s lim off)"
    unfolding select_active_def by (intro sorted_desc_limit_offset sorted_desc_order_by)
  with decode_rows_column(1) [OF d]
  show "sorted_wrt (\<lambda>a b. created_at b \<le> created_at a) items" by (rule sorted_desc_items)
  from d show "item_id ` set items \<subseteq> item_id ` {r \<in> set (rows s). is_active r}"
    unfolding select_active_def by (rule selected_ids)
next
  assume "0 \<le> lim \<and> 0 \<le> off"
  then show "select_active s lim off @ select_active s lim (off + lim) = select_active s (2 * lim) off"
    by (simp add: select_active_def consecutive_pages)
next
  assume a: "length (filter is_active (rows s)) = 5
        \<and> get_all_knowledge_items jl s 2 0 = Inr p0
        \<and> get_all_knowledge_items jl s 2 2 = Inr p1
        \<and> get_all_knowledge_items jl s 2 4 = Inr p2"
  define xs where "xs = order_by_created_at_desc (filter is_active (rows s))"
  have len: "length xs = 5" using a by (simp add: xs_def order_by_created_at_desc_def)
  note pg = five_in_three_pages [OF len]
  have d0: "decode_rows jl (take 2 xs) = Inr p0"
    and d1: "decode_rows jl (take 2 (drop 2 xs)) = Inr p1"
    and d2: "decode_rows jl (drop 4 xs) = Inr p2"
    using a pg(1,2,3) by (simp_all add: get_all_knowledge_items_def select_active_def xs_def)
  have "decode_rows jl (take 2 xs @ take 2 (drop 2 xs) @ drop 4 xs) = Inr (p0 @ p1 @ p2)"
    by (intro decode_rows_append d0 d1 d2)
  then have dall: "decode_rows jl xs = Inr (p0 @ p1 @ p2)" by (simp only: pg(5))
  show "length p0 = 2" using decode_rows_column(3) [OF d0] len by simp
  show "length p1 = 2" using decode_rows_column(3) [OF d1] len by simp
  show "length p2 = 1" using decode_rows_column(3) [OF d2] len by simp
  show "get_all_knowledge_items jl s 5 0 = Inr (p0 @ p1 @ p2)"
    using dall pg(4) by (simp add: get_all_knowledge_items_def select_active_def xs_def)
  have "map item_id (p0 @ p1 @ p2) = map item_id xs" using dall by (rule decode_rows_ids)
  then have "mset (map item_id (p0 @ p1 @ p2)) = mset (map item_id xs)" by simp
  also have "\<dots> = mset (map item_id (filter is_active (rows s)))"
    by (simp add: xs_def order_by_created_at_desc_def)
  finally show m: "mset (map item_id (p0 @ p1 @ p2))
      = mset (map item_id (filter is_active (rows s)))" .
  have "sorted_wrt (\<lambda>a b. created_at b \<le> created_at a) xs"
    unfolding xs_def by (rule sorted_desc_order_by)
  with decode_rows_column(1) [OF dall]
  show "sorted_wrt (\<lambda>a b. created_at b \<le> created_at a) (p0 @ p1 @ p2)"
    by (rule sorted_desc_items)
  assume "distinct (map item_id (rows s))"
  then have "distinct (map item_id (filter is_active (rows s)))" by (rule distinct_map_filter)
  with m show "distinct (map item_id (p0 @ p1 @ p2))"
    using mset_eq_imp_distinct_iff by blast
qed

lemma six_notes_pages:
  "length (filter is_active (rows six_notes)) = 5"
  "\<not> isl (get_all_knowledge_items no_json six_notes 2 0)"
  "\<not> isl (get_all_knowledge_items no_json six_notes 2 2)"
  "\<not> isl (get_all_knowledge_items no_json six_notes 2 4)"
  "distinct (map item_id (rows six_notes))"
  by code_simp+

theorem list_pages_partition_witness:
  "get_all_knowledge_items no_json six_notes 5 0
     = Inr (projr (get_all_knowledge_items no_json six_notes 2 0)
            @ projr (get_all_knowledge_items no_json six_notes 2 2)
            @ projr (get_all_knowledge_items no_json six_notes 2 4))
   \<and> length (projr (get_all_knowledge_items no_json six_notes 2 4)) = 1
   \<and> distinct (map item_id (projr (get_all_knowledge_items no_json six_notes 2 0)
            @ projr (get_all_knowledge_items no_json six_notes 2 2)
            @ projr (get_all_knowledge_items no_json six_notes 2 4)))"
proof -
  have p: "get_all_knowledge_items no_json six_notes 2 0
             = Inr (projr (get_all_knowledge_items no_json six_notes 2 0))"
    "get_all_knowledge_items no_json six_notes 2 2
             = Inr (projr (get_all_knowledge_items no_json six_notes 2 2))"
    "get_all_knowledge_items no_json six_notes 2 4
             = Inr (projr (get_all_knowledge_items no_json six_notes 2 4))"
    using six_notes_pages(2,3,4) by simp_all
  from list_pages_partition
         [of no_json six_notes _ _ "projr (get_all_knowledge_items no_json six_notes 2 0)"
             "projr (get_all_knowledge_items no_json six_notes 2 2)"
             "projr (get_all_knowledge_items no_json six_notes 2 4)"]
       six_notes_pages(1,5) p
  show ?thesis by blast
qed

end
